theory Spec2Isabelle
  imports Main "HOL-Library.Word"
begin

section \<open>Data model\<close>

text \<open>
  Buffers (\<open>unsigned char*\<close> with a length, \<open>std::string\<close>, \<open>std::array<uint8_t, N>\<close>) are
  lists of bytes. \<open>size_t\<close> is the 64-bit unsigned integer of an LP64 platform; its
  arithmetic wraps around. Exceptions are values of \<open>error\<close>.
\<close>

type_synonym byte = "8 word"
type_synonym bytes = "byte list"
type_synonym size_t = "64 word"

datatype error = invalid_argument | runtime_error | assertion_failure

text \<open>
  \<open>memcpy\<close>-like write of \<open>src\<close> into \<open>buf\<close> at offset \<open>pos\<close>. A write inside the buffer
  (\<open>pos + length src \<le> length buf\<close>) leaves the length of the buffer unchanged.
\<close>

definition write_at :: "bytes \<Rightarrow> nat \<Rightarrow> bytes \<Rightarrow> bytes" where
  "write_at buf pos src = take pos buf @ src @ drop (pos + length src) buf"

section \<open>Cipher (cipher.cpp)\<close>

subsection \<open>Constants of the AEAD and hash library\<close>

text \<open>
  Modelled from the spec: the header constants \<open>crypto_generichash_blake2b_SALTBYTES\<close>
  (the macro \<open>NONCE_SIZE\<close> of cipher.cpp) and \<open>crypto_aead_chacha20poly1305_IETF_ABYTES\<close>
  (the spec's \<open>TAG_SIZE\<close>) come from the headers of the cryptographic library, which
  are not among the sources. The spec's scenario fixes both: NONCE_SIZE=16, TAG_SIZE=16.
\<close>

definition NONCE_SIZE :: size_t where
  "NONCE_SIZE = 16"

definition crypto_aead_chacha20poly1305_IETF_ABYTES :: size_t where
  "crypto_aead_chacha20poly1305_IETF_ABYTES = 16"

subsection \<open>Length functions\<close>

definition ciphertext_length :: "size_t \<Rightarrow> size_t" where
  "ciphertext_length plaintext_len =
     plaintext_len + NONCE_SIZE + crypto_aead_chacha20poly1305_IETF_ABYTES"

definition plaintext_length :: "size_t \<Rightarrow> size_t" where
  "plaintext_length c_len =
     (if c_len > NONCE_SIZE + crypto_aead_chacha20poly1305_IETF_ABYTES
      then c_len - NONCE_SIZE - crypto_aead_chacha20poly1305_IETF_ABYTES
      else 0)"

subsection \<open>The cryptographic library\<close>

text \<open>
  The AEAD cipher and the keyed hash belong to an external library that cipher.cpp calls
  through fixed C functions. They are parameters of the model: a record of the three
  functions called and of the three header constants used
  (\<open>crypto_aead_chacha20poly1305_KEYBYTES\<close>, \<open>crypto_generichash_blake2b_PERSONALBYTES\<close>,
  and the number of nonce bytes that the IETF AEAD reads at its \<open>npub\<close> pointer).
  Each function maps the contents of its input buffers to the bytes it writes:
  \<^item> \<open>generichash out_len in key salt personal\<close> is the \<open>out_len\<close>-byte hash;
  \<^item> \<open>aead_encrypt m ad npub k\<close> is the ciphertext with its tag written at \<open>c\<close>;
  \<^item> \<open>aead_decrypt c ad npub k\<close> is \<open>(ret, m_len, m)\<close>: the return code, the value stored
    in \<open>*mlen_p\<close> and the bytes written at \<open>m\<close>.
\<close>

record sodium =
  KEYBYTES :: nat
  PERSONALBYTES :: nat
  NPUBBYTES :: nat
  crypto_generichash_blake2b_salt_personal :: "nat \<Rightarrow> bytes \<Rightarrow> bytes \<Rightarrow> bytes \<Rightarrow> bytes \<Rightarrow> bytes"
  crypto_aead_chacha20poly1305_ietf_encrypt :: "bytes \<Rightarrow> bytes \<Rightarrow> bytes \<Rightarrow> bytes \<Rightarrow> bytes"
  crypto_aead_chacha20poly1305_ietf_decrypt :: "bytes \<Rightarrow> bytes \<Rightarrow> bytes \<Rightarrow> bytes \<Rightarrow> int \<times> nat \<times> bytes"

text \<open>
  \<open>hash_personal__\<close>: the array of PERSONALBYTES bytes initialised with the string
  literal "encryption_key"; the remaining elements are zero.
\<close>

definition hash_personal :: "sodium \<Rightarrow> bytes" where
  "hash_personal S =
     map (\<lambda>c. of_nat (of_char c)) ''encryption_key''
       @ replicate (PERSONALBYTES S - length ''encryption_key'') 0"

text \<open>
  Modelled from the spec: \<open>random_bytes\<close> is declared in random.hpp, which is not among
  the sources. The spec: "Random-bytes source (external): fill(buffer, length)". The
  bytes drawn by one call are the parameter \<open>rng\<close>; the call writes the first \<open>n\<close> of
  them at the start of the buffer.
\<close>

definition random_bytes :: "(nat \<Rightarrow> byte) \<Rightarrow> nat \<Rightarrow> bytes \<Rightarrow> bytes" where
  "random_bytes rng n buf = write_at buf 0 (map rng [0..<n])"

subsection \<open>Encryption\<close>

text \<open>
  \<open>CipherImpl::encrypt(const unsigned char* in, const size_t& len, unsigned char* out)\<close>.
  The master key \<open>key_\<close> is the list of its bytes \<open>k\<close>; locking, unlocking and zeroing of
  key buffers do not change any value that is read afterwards. The result is the final
  content of the buffer \<open>out\<close>.
\<close>

definition encrypt_raw :: "sodium \<Rightarrow> (nat \<Rightarrow> byte) \<Rightarrow> bytes \<Rightarrow> bytes \<Rightarrow> size_t \<Rightarrow> bytes \<Rightarrow> bytes" where
  "encrypt_raw S rng k inp len out =
     (let out1 = random_bytes rng (unat NONCE_SIZE) out;
          chacha_key = crypto_generichash_blake2b_salt_personal S (KEYBYTES S) [] k
                         (take (unat NONCE_SIZE) out1) (hash_personal S);
          c = crypto_aead_chacha20poly1305_ietf_encrypt S (take (unat len) inp) []
                (take (NPUBBYTES S) out1) chacha_key
      in write_at out1 (unat NONCE_SIZE) c)"

text \<open>
  \<open>CipherImpl::encrypt(const std::string& in, std::string& out)\<close>. The content of the
  freshly allocated buffer \<open>data\<close> is the parameter \<open>heap\<close>. The result is the exception
  thrown, if any, and the final value of \<open>out\<close>.
\<close>

definition encrypt :: "sodium \<Rightarrow> (nat \<Rightarrow> byte) \<Rightarrow> (nat \<Rightarrow> byte) \<Rightarrow> bytes \<Rightarrow> bytes \<Rightarrow> bytes \<Rightarrow> error option \<times> bytes" where
  "encrypt S rng heap k inp out =
     (if inp = [] then (Some invalid_argument, out)
      else
        let len = (of_nat (length inp) :: size_t);
            c_len = ciphertext_length len;
            data = map heap [0..<unat c_len];
            data' = encrypt_raw S rng k inp len data
        in (None, take (unat c_len) data'))"

subsection \<open>Decryption\<close>

text \<open>
  \<open>CipherImpl::decrypt(const unsigned char* in, const size_t& len, unsigned char* out)\<close>:
  the exception thrown, if any, and the final content of the buffer \<open>out\<close>.
\<close>

definition decrypt_raw :: "sodium \<Rightarrow> bytes \<Rightarrow> bytes \<Rightarrow> size_t \<Rightarrow> bytes \<Rightarrow> error option \<times> bytes" where
  "decrypt_raw S k inp len out =
     (if len < ciphertext_length 0 then (Some invalid_argument, out)
      else
        let chacha_key = crypto_generichash_blake2b_salt_personal S (KEYBYTES S) [] k
                           (take (unat NONCE_SIZE) inp) (hash_personal S);
            (ret, m_len, m) = crypto_aead_chacha20poly1305_ietf_decrypt S
                           (take (unat (len - NONCE_SIZE)) (drop (unat NONCE_SIZE) inp)) []
                           (take (NPUBBYTES S) inp) chacha_key;
            out1 = write_at out 0 m
        in if ret = - 1 then (Some runtime_error, write_at out1 0 (replicate m_len 0))
           else (None, out1))"

text \<open>
  \<open>CipherImpl::decrypt(const std::string& in, std::string& out)\<close>: the exception thrown,
  if any, and the final value of \<open>out\<close>. The vector \<open>data\<close> starts as \<open>p_len\<close> zero bytes.
\<close>

definition decrypt :: "sodium \<Rightarrow> bytes \<Rightarrow> bytes \<Rightarrow> bytes \<Rightarrow> error option \<times> bytes" where
  "decrypt S k inp out =
     (let len = (of_nat (length inp) :: size_t) in
      if len \<le> NONCE_SIZE + crypto_aead_chacha20poly1305_IETF_ABYTES
      then (Some invalid_argument, out)
      else
        let p_len = plaintext_length len;
            data = replicate (unat p_len) 0
        in case decrypt_raw S k inp len data of
             (Some e, _) \<Rightarrow> (Some e, out)
           | (None, data') \<Rightarrow> (None, take (unat p_len) data'))"

subsection \<open>What the callers rely on from the library\<close>

text \<open>
  The contract of the AEAD primitive: the ciphertext is the message length plus the tag
  length long, and decrypting it under the same nonce and key returns 0 and writes the
  message back.
\<close>

definition aead_correct :: "sodium \<Rightarrow> bool" where
  "aead_correct S \<longleftrightarrow>
     (\<forall>m ad npub key.
        length (crypto_aead_chacha20poly1305_ietf_encrypt S m ad npub key)
          = length m + unat crypto_aead_chacha20poly1305_IETF_ABYTES
        \<and> crypto_aead_chacha20poly1305_ietf_decrypt S
            (crypto_aead_chacha20poly1305_ietf_encrypt S m ad npub key) ad npub key
          = (0, length m, m))"

text \<open>
  A small instance of the library for concrete evaluation: the hash returns its key and
  salt cut to the requested length, the cipher appends sixteen bytes 42 as tag, and
  decryption checks and removes them.
\<close>

definition toy_sodium :: sodium where
  "toy_sodium = \<lparr>
     KEYBYTES = 32, PERSONALBYTES = 16, NPUBBYTES = 12,
     crypto_generichash_blake2b_salt_personal =
       (\<lambda>out_len m key salt personal. take out_len (key @ salt @ replicate out_len 0)),
     crypto_aead_chacha20poly1305_ietf_encrypt =
       (\<lambda>m ad npub key. m @ replicate 16 42),
     crypto_aead_chacha20poly1305_ietf_decrypt =
       (\<lambda>c ad npub key.
          if 16 \<le> length c \<and> drop (length c - 16) c = replicate 16 42
          then (0, length c - 16, take (length c - 16) c)
          else (- 1, 0, replicate (length c - 16) 0)) \<rparr>"

section \<open>Prf\<close>

text \<open>
  The class template \<open>Prf\<close> is the header that follows the SetHash code in set_hash.cpp
  (from line 218 on). \<open>Prf<NBYTES>\<close> holds an \<open>HMac\<close> object \<open>base_\<close> with its key. The class \<open>HMac\<close> and the
  hash behind it are declared in hmac.hpp and hash.hpp, which are not among the sources;
  they are parameters of the model:
  \<^item> \<open>hmac key msg out_len\<close> is what \<open>base_.hmac(msg, length, out, out_len)\<close> writes at
    \<open>out\<close> for the object that holds \<open>key\<close>;
  \<^item> \<open>kDigestSize\<close> is \<open>PrfBase::kDigestSize\<close>, also \<open>Hash::kDigestSize\<close>.
  \<open>NBYTES\<close> and \<open>pos\<close> are \<open>uint16_t\<close>, the counter \<open>i\<close> is \<open>uint8_t\<close>.
\<close>

text \<open>
  The \<open>for\<close> loop of \<open>Prf<NBYTES>::prf\<close>. \<open>tmp\<close> holds \<open>len + 1\<close> bytes, the input and the
  counter byte. The result is \<open>None\<close> when the loop does not terminate.
\<close>

partial_function (option) prf_loop ::
  "(bytes \<Rightarrow> nat \<Rightarrow> bytes) \<Rightarrow> nat \<Rightarrow> 16 word \<Rightarrow> nat \<Rightarrow> bytes \<Rightarrow> 16 word \<Rightarrow> 8 word \<Rightarrow> bytes \<Rightarrow> bytes option"
where
  "prf_loop base_hmac kDigestSize NBYTES len tmp pos i result =
     (if pos < NBYTES then
        let tmp' = tmp[len := i];
            result' =
              (if kDigestSize \<le> unat NBYTES - unat pos
               then write_at result (unat pos) (base_hmac (take (len + 1) tmp') kDigestSize)
               else write_at result (unat pos)
                      (base_hmac (take (len + 1) tmp') (unat NBYTES - unat pos)))
        in prf_loop base_hmac kDigestSize NBYTES len tmp' (pos + of_nat kDigestSize) (i + 1) result'
      else Some result)"

declare prf_loop.simps [code]

text \<open>
  \<open>Prf<NBYTES>::prf(const unsigned char* in, const size_t length)\<close>. The input is \<open>None\<close>
  for a null pointer, otherwise the \<open>length\<close> bytes at \<open>in\<close>. \<open>result\<close> is the content of
  the uninitialised array of \<open>NBYTES\<close> bytes, \<open>u\<close> the uninitialised last byte of \<open>tmp\<close>.
  The value is \<open>None\<close> when the call does not return, \<open>Some (Inl e)\<close> when it throws
  \<open>e\<close>, \<open>Some (Inr r)\<close> when it returns the array \<open>r\<close>. \<open>result.size()\<close> is \<open>NBYTES\<close>.
  An instance with \<open>NBYTES = 0\<close> does not compile (\<open>static_assert\<close>).
\<close>

definition Prf_prf ::
  "(bytes \<Rightarrow> bytes \<Rightarrow> nat \<Rightarrow> bytes) \<Rightarrow> nat \<Rightarrow> bytes \<Rightarrow> 16 word \<Rightarrow> byte \<Rightarrow> bytes option \<Rightarrow> bytes \<Rightarrow> (error + bytes) option"
where
  "Prf_prf hmac kDigestSize key NBYTES u inp result =
     (case inp of
        None \<Rightarrow> Some (Inl invalid_argument)
      | Some buf \<Rightarrow>
          if kDigestSize < unat NBYTES then
            map_option Inr
              (prf_loop (hmac key) kDigestSize NBYTES (length buf) (buf @ [u]) 0 0 result)
          else if unat NBYTES \<le> kDigestSize then
            Some (Inr (write_at result 0 (hmac key buf (unat NBYTES))))
          else Some (Inr result))"

text \<open>
  The older header of the same class (\<open>template <uint8_t NBYTES> class Prf\<close>):
  \<open>assert(NBYTES <= kDigestSize)\<close>, then, under the same condition, one call of
  \<open>base_.hmac(in, length)\<close>, which returns a whole digest, of which \<open>NBYTES\<close> bytes are
  copied. \<open>NDEBUG\<close> says whether the build defines the macro of that name, which removes
  the assertion; with it the unset array is returned when the condition fails.
\<close>

definition Prf_prf_legacy ::
  "bool \<Rightarrow> (bytes \<Rightarrow> bytes \<Rightarrow> bytes) \<Rightarrow> nat \<Rightarrow> bytes \<Rightarrow> 8 word \<Rightarrow> bytes \<Rightarrow> bytes \<Rightarrow> error + bytes"
where
  "Prf_prf_legacy NDEBUG hmac kDigestSize key NBYTES buf result =
     (if \<not> NDEBUG \<and> \<not> unat NBYTES \<le> kDigestSize then Inl assertion_failure
      else if unat NBYTES \<le> kDigestSize
      then Inr (write_at result 0 (take (unat NBYTES) (hmac key buf)))
      else Inr result)"

text \<open>
  The counter-mode expansion in the words of the spec: the keyed hash over
  \<open>input || counter_byte\<close> for \<open>counter = 0, 1, 2, ...\<close>, each call producing up to one
  digest, concatenated until \<open>n\<close> bytes are produced, the last block cut to the
  remaining byte count.
\<close>

definition prf_counter_mode :: "(bytes \<Rightarrow> nat \<Rightarrow> bytes) \<Rightarrow> nat \<Rightarrow> nat \<Rightarrow> bytes \<Rightarrow> bytes" where
  "prf_counter_mode base_hmac kDigestSize n buf =
     concat (map (\<lambda>j. base_hmac (buf @ [of_nat j]) (min kDigestSize (n - j * kDigestSize)))
               [0..<(n + kDigestSize - 1) div kDigestSize])"

text \<open>A small keyed hash for concrete evaluation: every byte is the last message byte plus one.\<close>

definition toy_hmac :: "bytes \<Rightarrow> bytes \<Rightarrow> nat \<Rightarrow> bytes" where
  "toy_hmac key msg out_len = replicate out_len (last msg + 1)"

section \<open>SetHash (set_hash.cpp)\<close>

subsection \<open>The multiset-hash engine\<close>

text \<open>
  Modelled from the spec: the engine \<open>jbms::multiset_hash::ECMH\<close> over the curve GLS254
  (ecmh/multiset_hash/ECMH.hpp and the headers it includes) is not among the sources;
  set_hash.cpp only calls it. The spec: "Internal state is an opaque group element";
  "All group operations delegate to an external elliptic-curve arithmetic engine
  parameterized by the chosen hash-to-group mapping". A state is an element of an
  abelian group \<open>'g\<close>; the engine is its hash-to-group mapping together with its
  functions \<open>to_hex\<close> and \<open>from_hex\<close>, of which the spec gives no construction and which
  stay parameters.
\<close>

record 'g ecmh =
  hash_to_group :: "bytes \<Rightarrow> 'g"
  to_hex :: "'g \<Rightarrow> string"
  from_hex :: "string \<Rightarrow> 'g"

text \<open>Modelled from the spec: \<open>initial_state\<close> of the engine, "identity (empty set) construction".\<close>

definition initial_state :: "'g ecmh \<Rightarrow> 'g::ab_group_add" where
  "initial_state E = 0"

text \<open>Modelled from the spec: \<open>add\<close> of the engine, "state <- state (+) H(x)".\<close>

definition add :: "'g ecmh \<Rightarrow> 'g::ab_group_add \<Rightarrow> bytes \<Rightarrow> 'g" where
  "add E st x = st + hash_to_group E x"

text \<open>Modelled from the spec: \<open>remove\<close> of the engine, "state <- state (-) H(x) (inverse operation)".\<close>

definition remove :: "'g ecmh \<Rightarrow> 'g::ab_group_add \<Rightarrow> bytes \<Rightarrow> 'g" where
  "remove E st x = st - hash_to_group E x"

text \<open>
  Modelled from the spec: \<open>equal\<close> of the engine, "Equality is defined as equality of the
  underlying group element under the same curve parameters".
\<close>

definition equal_state :: "'g \<Rightarrow> 'g \<Rightarrow> bool" where
  "equal_state a b \<longleftrightarrow> a = b"

subsection \<open>SetHashImpl\<close>

text \<open>
  The class of set_hash.cpp: its only member is the engine state \<open>state_\<close>. Every member
  function passes the state to the engine function of the same purpose. The engine
  singleton \<open>ecmh()\<close> is the parameter \<open>E\<close>.
\<close>

record 'g SetHashImpl =
  state :: 'g

text \<open>\<open>SetHashImpl::SetHashImpl()\<close>\<close>

definition SetHashImpl_new :: "'g ecmh \<Rightarrow> ('g::ab_group_add) SetHashImpl" where
  "SetHashImpl_new E = \<lparr>state = initial_state E\<rparr>"

text \<open>\<open>SetHashImpl::SetHashImpl(const std::string &hex)\<close>\<close>

definition SetHashImpl_of_hex :: "'g ecmh \<Rightarrow> string \<Rightarrow> 'g SetHashImpl" where
  "SetHashImpl_of_hex E s = \<lparr>state = from_hex E s\<rparr>"

definition add_element :: "'g ecmh \<Rightarrow> ('g::ab_group_add) SetHashImpl \<Rightarrow> bytes \<Rightarrow> 'g SetHashImpl" where
  "add_element E h x = h\<lparr>state := add E (state h) x\<rparr>"

definition remove_element :: "'g ecmh \<Rightarrow> ('g::ab_group_add) SetHashImpl \<Rightarrow> bytes \<Rightarrow> 'g SetHashImpl" where
  "remove_element E h x = h\<lparr>state := remove E (state h) x\<rparr>"

definition hex :: "'g ecmh \<Rightarrow> 'g SetHashImpl \<Rightarrow> string" where
  "hex E h = to_hex E (state h)"

text \<open>\<open>SetHashImpl::operator==\<close>\<close>

definition SetHashImpl_eq :: "'g SetHashImpl \<Rightarrow> 'g SetHashImpl \<Rightarrow> bool" where
  "SetHashImpl_eq h h' \<longleftrightarrow> equal_state (state h) (state h')"

section \<open>Properties of the length functions\<close>

lemma unat_ciphertext_length:
  "unat (ciphertext_length L) = (unat L + 32) mod 2 ^ 64"
  by (simp add: ciphertext_length_def NONCE_SIZE_def
      crypto_aead_chacha20poly1305_IETF_ABYTES_def unat_word_ariths add.assoc mod_simps)

lemma ciphertext_length_no_wrap:
  "unat L + 32 < 2 ^ 64 \<Longrightarrow> unat (ciphertext_length L) = unat L + 32"
  by (simp add: unat_ciphertext_length)

lemma plaintext_length_small:
  "c_len \<le> NONCE_SIZE + crypto_aead_chacha20poly1305_IETF_ABYTES \<Longrightarrow> plaintext_length c_len = 0"
  by (simp add: plaintext_length_def not_less [symmetric])

lemma plaintext_length_ciphertext_length:
  assumes "unat L + 32 < 2 ^ 64" and "1 \<le> L"
  shows "plaintext_length (ciphertext_length L) = L"
proof -
  have pos: "0 < unat L"
    using assms(2) by (simp add: word_le_nat_alt)
  have "unat (NONCE_SIZE + crypto_aead_chacha20poly1305_IETF_ABYTES) = 32"
    by (simp add: NONCE_SIZE_def crypto_aead_chacha20poly1305_IETF_ABYTES_def)
  then have "NONCE_SIZE + crypto_aead_chacha20poly1305_IETF_ABYTES < ciphertext_length L"
    using pos ciphertext_length_no_wrap [OF assms(1)] by (simp add: word_less_nat_alt)
  then show ?thesis
    by (simp add: plaintext_length_def ciphertext_length_def)
qed

text \<open>
  C1 (as stated, refuted): at the plaintext length \<open>L = 2^64 - 1\<close>, which is at least 1,
  the sum \<open>L + NONCE_SIZE + TAG_SIZE\<close> wraps around in \<open>size_t\<close>: \<open>ciphertext_length\<close>
  returns 31, not \<open>L + 32\<close>, and \<open>plaintext_length\<close> of it returns 0, not \<open>L\<close>.
\<close>

theorem length_contract_counterexample:
  "(1 :: size_t) \<le> 0xFFFFFFFFFFFFFFFF
   \<and> ciphertext_length 0xFFFFFFFFFFFFFFFF = 31
   \<and> unat (ciphertext_length 0xFFFFFFFFFFFFFFFF)
       \<noteq> unat (0xFFFFFFFFFFFFFFFF :: size_t) + unat NONCE_SIZE
           + unat crypto_aead_chacha20poly1305_IETF_ABYTES
   \<and> plaintext_length (ciphertext_length 0xFFFFFFFFFFFFFFFF) = 0
   \<and> plaintext_length (ciphertext_length 0xFFFFFFFFFFFFFFFF) \<noteq> 0xFFFFFFFFFFFFFFFF"
  by (simp add: ciphertext_length_def plaintext_length_def NONCE_SIZE_def
      crypto_aead_chacha20poly1305_IETF_ABYTES_def)

text \<open>
  C1 (amended): for every plaintext length \<open>L \<ge> 1\<close> whose sum with NONCE_SIZE and
  TAG_SIZE fits in \<open>size_t\<close> (\<open>L + NONCE_SIZE + TAG_SIZE < 2^64\<close>),
  \<open>ciphertext_length L\<close> is \<open>L + NONCE_SIZE + TAG_SIZE\<close> and \<open>plaintext_length\<close> of it is
  \<open>L\<close>; for every \<open>c_len \<le> NONCE_SIZE + TAG_SIZE\<close>, \<open>plaintext_length c_len\<close> is 0.
\<close>

theorem length_contract:
  "(1 \<le> L \<and> unat L + unat NONCE_SIZE + unat crypto_aead_chacha20poly1305_IETF_ABYTES < 2 ^ 64
      \<longrightarrow> unat (ciphertext_length L)
            = unat L + unat NONCE_SIZE + unat crypto_aead_chacha20poly1305_IETF_ABYTES
          \<and> plaintext_length (ciphertext_length L) = L)
   \<and> (c_len \<le> NONCE_SIZE + crypto_aead_chacha20poly1305_IETF_ABYTES
      \<longrightarrow> plaintext_length c_len = 0)"
proof -
  have c: "unat NONCE_SIZE = 16" "unat crypto_aead_chacha20poly1305_IETF_ABYTES = 16"
    by (simp_all add: NONCE_SIZE_def crypto_aead_chacha20poly1305_IETF_ABYTES_def)
  show ?thesis
    using ciphertext_length_no_wrap [of L] plaintext_length_ciphertext_length [of L]
      plaintext_length_small [of c_len]
    by (simp add: c)
qed

theorem length_contract_witness:
  "(1 :: size_t) \<le> 13
   \<and> unat (13 :: size_t) + unat NONCE_SIZE + unat crypto_aead_chacha20poly1305_IETF_ABYTES < 2 ^ 64
   \<and> unat (ciphertext_length 13) = 45
   \<and> plaintext_length (ciphertext_length 13) = 13
   \<and> (32 :: size_t) \<le> NONCE_SIZE + crypto_aead_chacha20poly1305_IETF_ABYTES
   \<and> plaintext_length 32 = 0"
  using length_contract [of 13 32]
  by (simp add: NONCE_SIZE_def crypto_aead_chacha20poly1305_IETF_ABYTES_def)

section \<open>Properties of encryption and decryption\<close>

subsection \<open>Buffers and sizes\<close>

lemma unat_consts:
  "unat NONCE_SIZE = 16" "unat crypto_aead_chacha20poly1305_IETF_ABYTES = 16"
  by (simp_all add: NONCE_SIZE_def crypto_aead_chacha20poly1305_IETF_ABYTES_def)

lemma unat_c_len:
  "length s + 32 < 2 ^ 64 \<Longrightarrow> unat (ciphertext_length (of_nat (length s))) = length s + 32"
  by (simp add: unat_ciphertext_length unat_of_nat)

subsection \<open>The layout written by encryption\<close>

lemma encrypt_raw_layout:
  assumes "aead_correct S" and "length out = length inp + 32" and "unat len = length inp"
  shows "encrypt_raw S rng k inp len out
         = map rng [0..<16]
           @ crypto_aead_chacha20poly1305_ietf_encrypt S inp []
               (take (NPUBBYTES S) (map rng [0..<16] @ drop 16 out))
               (crypto_generichash_blake2b_salt_personal S (KEYBYTES S) [] k
                  (map rng [0..<16]) (hash_personal S))"
  using assms
  by (simp add: encrypt_raw_def random_bytes_def write_at_def unat_consts aead_correct_def Let_def)

lemma encrypt_layout:
  assumes "aead_correct S" and "inp \<noteq> []" and "length inp + 32 < 2 ^ 64"
  shows "encrypt S rng heap k inp out
         = (None, map rng [0..<16]
           @ crypto_aead_chacha20poly1305_ietf_encrypt S inp []
               (take (NPUBBYTES S) (map rng [0..<16] @ drop 16 (map heap [0..<length inp + 32])))
               (crypto_generichash_blake2b_salt_personal S (KEYBYTES S) [] k
                  (map rng [0..<16]) (hash_personal S)))"
proof -
  have len: "unat (of_nat (length inp) :: size_t) = length inp"
    using assms(3) by (simp add: unat_of_nat)
  have clen: "unat (ciphertext_length (of_nat (length inp))) = length inp + 32"
    using assms(3) by (rule unat_c_len)
  have "encrypt_raw S rng k inp (of_nat (length inp)) (map heap [0..<length inp + 32])
        = map rng [0..<16]
           @ crypto_aead_chacha20poly1305_ietf_encrypt S inp []
               (take (NPUBBYTES S) (map rng [0..<16] @ drop 16 (map heap [0..<length inp + 32])))
               (crypto_generichash_blake2b_salt_personal S (KEYBYTES S) [] k
                  (map rng [0..<16]) (hash_personal S))"
    by (rule encrypt_raw_layout [OF assms(1)]) (simp_all add: len)
  moreover have "length (crypto_aead_chacha20poly1305_ietf_encrypt S inp [] n kk) = length inp + 16" for n kk
    using assms(1) by (simp add: aead_correct_def unat_consts)
  ultimately show ?thesis
    using assms(2) by (simp add: encrypt_def Let_def clen)
qed

subsection \<open>Decryption of that layout\<close>

lemma decrypt_raw_of_layout:
  assumes ok: "aead_correct S" and np: "NPUBBYTES S \<le> 16" and n: "length nonce = 16"
    and len: "unat len = length m + 32" and out: "length out = length m"
  shows "decrypt_raw S k
           (nonce @ crypto_aead_chacha20poly1305_ietf_encrypt S m []
                      (take (NPUBBYTES S) nonce)
                      (crypto_generichash_blake2b_salt_personal S (KEYBYTES S) [] k nonce
                         (hash_personal S)))
           len out
         = (None, m)"
proof -
  let ?key = "crypto_generichash_blake2b_salt_personal S (KEYBYTES S) [] k nonce (hash_personal S)"
  let ?c = "crypto_aead_chacha20poly1305_ietf_encrypt S m [] (take (NPUBBYTES S) nonce) ?key"
  have lc: "length ?c = length m + 16"
    using ok by (simp add: aead_correct_def unat_consts)
  have dec: "crypto_aead_chacha20poly1305_ietf_decrypt S ?c [] (take (NPUBBYTES S) nonce) ?key
             = (0, length m, m)"
    using ok by (simp add: aead_correct_def)
  have big: "\<not> len < ciphertext_length 0"
    using len by (simp add: word_less_nat_alt unat_ciphertext_length)
  have "NONCE_SIZE \<le> len"
    using len by (simp add: word_le_nat_alt unat_consts)
  then have sub: "unat (len - NONCE_SIZE) = length m + 16"
    using len by (simp add: unat_sub unat_consts)
  show ?thesis
    using big np n out
    by (simp add: decrypt_raw_def Let_def unat_consts sub lc dec write_at_def)
qed

lemma plaintext_length_unat:
  assumes "unat len = n + 32" and "0 < n"
  shows "\<not> len \<le> NONCE_SIZE + crypto_aead_chacha20poly1305_IETF_ABYTES"
    and "unat (plaintext_length len) = n"
proof -
  have c: "unat (NONCE_SIZE + crypto_aead_chacha20poly1305_IETF_ABYTES) = 32"
    by (simp add: NONCE_SIZE_def crypto_aead_chacha20poly1305_IETF_ABYTES_def)
  show gt: "\<not> len \<le> NONCE_SIZE + crypto_aead_chacha20poly1305_IETF_ABYTES"
    using assms by (simp add: word_le_nat_alt c)
  then have "plaintext_length len = len - (NONCE_SIZE + crypto_aead_chacha20poly1305_IETF_ABYTES)"
    by (simp add: plaintext_length_def not_le diff_diff_eq)
  moreover have "NONCE_SIZE + crypto_aead_chacha20poly1305_IETF_ABYTES \<le> len"
    using assms(1) by (simp add: word_le_nat_alt c)
  then have "unat (len - (NONCE_SIZE + crypto_aead_chacha20poly1305_IETF_ABYTES)) = unat len - 32"
    using c by (simp add: unat_sub)
  ultimately show "unat (plaintext_length len) = n"
    using assms(1) by simp
qed

lemma decrypt_success:
  assumes "unat (of_nat (length inp) :: size_t) = length m + 32" and "m \<noteq> []"
    and "decrypt_raw S k inp (of_nat (length inp)) (replicate (length m) 0) = (None, m)"
  shows "decrypt S k inp out = (None, m)"
  using plaintext_length_unat [OF assms(1)] assms(2,3)
  by (simp add: decrypt_def Let_def)

lemma decrypt_of_layout:
  assumes ok: "aead_correct S" and np: "NPUBBYTES S \<le> 16" and n: "length nonce = 16"
    and ne: "m \<noteq> []" and fit: "length m + 32 < 2 ^ 64"
  shows "decrypt S k
           (nonce @ crypto_aead_chacha20poly1305_ietf_encrypt S m []
                      (take (NPUBBYTES S) nonce)
                      (crypto_generichash_blake2b_salt_personal S (KEYBYTES S) [] k nonce
                         (hash_personal S)))
           out
         = (None, m)"
proof -
  let ?key = "crypto_generichash_blake2b_salt_personal S (KEYBYTES S) [] k nonce (hash_personal S)"
  let ?c = "crypto_aead_chacha20poly1305_ietf_encrypt S m [] (take (NPUBBYTES S) nonce) ?key"
  let ?len = "of_nat (length (nonce @ ?c)) :: size_t"
  have lc: "length ?c = length m + 16"
    using ok by (simp add: aead_correct_def unat_consts)
  have "length (nonce @ ?c) = length m + 32"
    using n by (simp add: lc)
  then have len: "unat ?len = length m + 32"
    using fit by (simp only: unat_of_nat) simp
  have raw: "decrypt_raw S k (nonce @ ?c) ?len (replicate (length m) 0) = (None, m)"
    by (rule decrypt_raw_of_layout [OF ok np n len]) simp
  show ?thesis
    by (rule decrypt_success [OF len ne raw])
qed

subsection \<open>The small library instance\<close>

lemma toy_sodium_correct: "aead_correct toy_sodium"
  by (simp add: aead_correct_def toy_sodium_def unat_consts)

lemma toy_npub: "NPUBBYTES toy_sodium \<le> unat NONCE_SIZE"
  by (simp add: toy_sodium_def unat_consts)

lemma toy_encrypt_value:
  "encrypt toy_sodium of_nat (\<lambda>i. 0) (replicate 32 7) [1, 2, 3] []
   = (None, [0, 1, 2, 3, 4, 5, 6, 7, 8, 9, 10, 11, 12, 13, 14, 15, 1, 2, 3,
             42, 42, 42, 42, 42, 42, 42, 42, 42, 42, 42, 42, 42, 42, 42, 42])"
  by code_simp

subsection \<open>Round trip\<close>

text \<open>
  C2: for every non-empty plaintext \<open>P\<close>, every master key \<open>k\<close> and every nonce \<open>rng\<close>
  drawn during encryption, \<open>encrypt\<close> succeeds and \<open>decrypt\<close> of its output with the same
  key returns exactly \<open>P\<close>. The library is any AEAD that decrypts what it encrypted and
  reads its nonce inside the NONCE_SIZE bytes at its \<open>npub\<close> pointer; a \<open>std::string\<close>
  is shorter than \<open>2^64 - 32\<close> bytes.
\<close>

theorem encrypt_decrypt_roundtrip:
  assumes "aead_correct S" and "NPUBBYTES S \<le> unat NONCE_SIZE"
    and "P \<noteq> []" and "length P + 32 < 2 ^ 64"
  shows "fst (encrypt S rng heap k P out) = None
         \<and> decrypt S k (snd (encrypt S rng heap k P out)) out' = (None, P)"
proof -
  have np: "NPUBBYTES S \<le> 16"
    using assms(2) by (simp add: unat_consts)
  show ?thesis
    using decrypt_of_layout [OF assms(1) np _ assms(3,4), of "map rng [0..<16]" k out'] np
    by (simp add: encrypt_layout [OF assms(1,3,4)])
qed

theorem encrypt_decrypt_roundtrip_witness:
  "aead_correct toy_sodium \<and> NPUBBYTES toy_sodium \<le> unat NONCE_SIZE
   \<and> [1, 2, 3] \<noteq> ([] :: bytes) \<and> length [1, 2, 3 :: byte] + 32 < 2 ^ 64
   \<and> fst (encrypt toy_sodium of_nat (\<lambda>i. 0) (replicate 32 7) [1, 2, 3] []) = None
   \<and> decrypt toy_sodium (replicate 32 7)
        (snd (encrypt toy_sodium of_nat (\<lambda>i. 0) (replicate 32 7) [1, 2, 3] [])) [9]
      = (None, [1, 2, 3])"
  using encrypt_decrypt_roundtrip [OF toy_sodium_correct toy_npub, of "[1, 2, 3]" of_nat "\<lambda>i. 0" "replicate 32 7" "[]" "[9]"]
    toy_sodium_correct toy_npub
  by simp

subsection \<open>Errors of encryption\<close>

text \<open>
  C4: \<open>encrypt\<close> throws \<open>invalid_argument\<close> if and only if the plaintext is empty; for
  every non-empty plaintext it throws nothing and the ciphertext assigned to \<open>out\<close> has
  length \<open>in.size() + NONCE_SIZE + TAG_SIZE\<close>. The string is built from \<open>c_len\<close> bytes
  of the buffer, so the length does not depend on the library. A \<open>std::string\<close> is
  shorter than \<open>2^64 - 32\<close> bytes, which is the hypothesis.
\<close>

theorem encrypt_invalid_iff_empty:
  assumes "length inp + 32 < 2 ^ 64"
  shows "(fst (encrypt S rng heap k inp out) = Some invalid_argument \<longleftrightarrow> inp = [])
         \<and> (inp \<noteq> [] \<longrightarrow>
              fst (encrypt S rng heap k inp out) = None
              \<and> length (snd (encrypt S rng heap k inp out))
                = length inp + unat NONCE_SIZE + unat crypto_aead_chacha20poly1305_IETF_ABYTES)"
  using unat_c_len [OF assms]
  by (auto simp add: encrypt_def Let_def encrypt_raw_def random_bytes_def write_at_def
      unat_consts min_def)

theorem encrypt_invalid_iff_empty_witness:
  "length [1, 2, 3 :: byte] + 32 < 2 ^ 64
   \<and> fst (encrypt toy_sodium of_nat (\<lambda>i. 0) (replicate 32 7) [] [9]) = Some invalid_argument
   \<and> [1, 2, 3] \<noteq> ([] :: bytes)
   \<and> fst (encrypt toy_sodium of_nat (\<lambda>i. 0) (replicate 32 7) [1, 2, 3] [9]) = None
   \<and> length (snd (encrypt toy_sodium of_nat (\<lambda>i. 0) (replicate 32 7) [1, 2, 3] [9])) = 35"
  using encrypt_invalid_iff_empty [of "[1, 2, 3]" toy_sodium of_nat "\<lambda>i. 0" "replicate 32 7" "[9]"]
    encrypt_invalid_iff_empty [of "[]" toy_sodium of_nat "\<lambda>i. 0" "replicate 32 7" "[9]"]
  by (simp add: unat_consts)

subsection \<open>Errors of decryption\<close>

text \<open>
  C5: \<open>decrypt\<close> throws \<open>invalid_argument\<close> whenever the input is at most
  \<open>NONCE_SIZE + TAG_SIZE\<close> bytes long; for a longer input it never throws
  \<open>invalid_argument\<close>: it succeeds or throws the \<open>runtime_error\<close> of a failed decryption.
  A \<open>std::string\<close> is shorter than \<open>2^64\<close> bytes.
\<close>

theorem decrypt_invalid_argument:
  assumes "length inp < 2 ^ 64"
  shows "(length inp \<le> unat NONCE_SIZE + unat crypto_aead_chacha20poly1305_IETF_ABYTES
            \<longrightarrow> decrypt S k inp out = (Some invalid_argument, out))
         \<and> (unat NONCE_SIZE + unat crypto_aead_chacha20poly1305_IETF_ABYTES < length inp
            \<longrightarrow> fst (decrypt S k inp out) \<noteq> Some invalid_argument
                \<and> (fst (decrypt S k inp out) = None \<or> fst (decrypt S k inp out) = Some runtime_error))"
proof -
  let ?len = "of_nat (length inp) :: size_t"
  have len: "unat ?len = length inp"
    using assms by (simp add: unat_of_nat)
  have c: "unat (NONCE_SIZE + crypto_aead_chacha20poly1305_IETF_ABYTES) = 32"
    by (simp add: NONCE_SIZE_def crypto_aead_chacha20poly1305_IETF_ABYTES_def)
  have le: "?len \<le> NONCE_SIZE + crypto_aead_chacha20poly1305_IETF_ABYTES \<longleftrightarrow> length inp \<le> 32"
    by (simp only: word_le_nat_alt len c)
  have raw: "\<not> ?len < ciphertext_length 0" if "32 < length inp"
    using that by (simp only: word_less_nat_alt len unat_ciphertext_length) simp
  have raw_err: "fst (decrypt_raw S k inp ?len d) = None
                 \<or> fst (decrypt_raw S k inp ?len d) = Some runtime_error"
    if "32 < length inp" for d
    using raw [OF that] by (simp add: decrypt_raw_def Let_def split: prod.splits)
  show ?thesis
  proof (intro conjI impI)
    assume "length inp \<le> unat NONCE_SIZE + unat crypto_aead_chacha20poly1305_IETF_ABYTES"
    then have "?len \<le> NONCE_SIZE + crypto_aead_chacha20poly1305_IETF_ABYTES"
      by (simp add: le unat_consts)
    then show "decrypt S k inp out = (Some invalid_argument, out)"
      by (simp add: decrypt_def Let_def)
  next
    assume "unat NONCE_SIZE + unat crypto_aead_chacha20poly1305_IETF_ABYTES < length inp"
    then have big: "32 < length inp"
      by (simp add: unat_consts)
    then have nle: "\<not> ?len \<le> NONCE_SIZE + crypto_aead_chacha20poly1305_IETF_ABYTES"
      by (simp add: le)
    obtain e d where r:
      "decrypt_raw S k inp ?len (replicate (unat (plaintext_length ?len)) 0) = (e, d)"
      by (cases "decrypt_raw S k inp ?len (replicate (unat (plaintext_length ?len)) 0)")
    from raw_err [OF big, of "replicate (unat (plaintext_length ?len)) 0"]
    have e: "e = None \<or> e = Some runtime_error"
      by (simp add: r)
    have d: "fst (decrypt S k inp out) = e"
      using nle e by (auto simp add: decrypt_def Let_def r)
    show "fst (decrypt S k inp out) \<noteq> Some invalid_argument"
      using e by (auto simp add: d)
    show "fst (decrypt S k inp out) = None \<or> fst (decrypt S k inp out) = Some runtime_error"
      using e by (simp add: d)
  qed
qed

theorem decrypt_invalid_argument_witness:
  "length (replicate 32 0 :: bytes) < 2 ^ 64
   \<and> length (replicate 32 0 :: bytes)
       \<le> unat NONCE_SIZE + unat crypto_aead_chacha20poly1305_IETF_ABYTES
   \<and> decrypt toy_sodium (replicate 32 7) (replicate 32 0) [9] = (Some invalid_argument, [9])
   \<and> length (replicate 33 0 :: bytes) < 2 ^ 64
   \<and> unat NONCE_SIZE + unat crypto_aead_chacha20poly1305_IETF_ABYTES
       < length (replicate 33 0 :: bytes)
   \<and> fst (decrypt toy_sodium (replicate 32 7) (replicate 33 0) [9]) \<noteq> Some invalid_argument"
  using decrypt_invalid_argument [of "replicate 32 0" toy_sodium "replicate 32 7" "[9]"]
    decrypt_invalid_argument [of "replicate 33 0" toy_sodium "replicate 32 7" "[9]"]
  by (simp add: unat_consts)

subsection \<open>Layout of the ciphertext\<close>

text \<open>
  C6: for every non-empty plaintext of length \<open>L\<close>, the ciphertext assigned to \<open>out\<close>
  starts with the NONCE_SIZE bytes of the generated nonce, followed by the output of the
  AEAD (run on the plaintext, no associated data, the nonce, and the subkey hashed from
  the master key and the nonce), which is \<open>L + TAG_SIZE\<close> bytes long; in total
  \<open>L + NONCE_SIZE + TAG_SIZE\<close> bytes.
\<close>

theorem encrypt_ciphertext_layout:
  assumes "aead_correct S" and "NPUBBYTES S \<le> unat NONCE_SIZE"
    and "inp \<noteq> []" and "length inp + 32 < 2 ^ 64"
  shows "take (unat NONCE_SIZE) (snd (encrypt S rng heap k inp out))
           = map rng [0..<unat NONCE_SIZE]
         \<and> drop (unat NONCE_SIZE) (snd (encrypt S rng heap k inp out))
           = crypto_aead_chacha20poly1305_ietf_encrypt S inp []
               (take (NPUBBYTES S) (map rng [0..<unat NONCE_SIZE]))
               (crypto_generichash_blake2b_salt_personal S (KEYBYTES S) [] k
                  (map rng [0..<unat NONCE_SIZE]) (hash_personal S))
         \<and> length (drop (unat NONCE_SIZE) (snd (encrypt S rng heap k inp out)))
           = length inp + unat crypto_aead_chacha20poly1305_IETF_ABYTES
         \<and> length (snd (encrypt S rng heap k inp out))
           = length inp + unat NONCE_SIZE + unat crypto_aead_chacha20poly1305_IETF_ABYTES"
proof -
  have "length (crypto_aead_chacha20poly1305_ietf_encrypt S inp [] n kk) = length inp + 16"
    for n kk
    using assms(1) by (simp add: aead_correct_def unat_consts)
  then show ?thesis
    using assms(2) by (simp add: encrypt_layout [OF assms(1,3,4)] unat_consts)
qed

theorem encrypt_ciphertext_layout_witness:
  "aead_correct toy_sodium \<and> NPUBBYTES toy_sodium \<le> unat NONCE_SIZE
   \<and> [1, 2, 3] \<noteq> ([] :: bytes) \<and> length [1, 2, 3 :: byte] + 32 < 2 ^ 64
   \<and> take 16 (snd (encrypt toy_sodium of_nat (\<lambda>i. 0) (replicate 32 7) [1, 2, 3] []))
       = map of_nat [0..<16]
   \<and> drop 16 (snd (encrypt toy_sodium of_nat (\<lambda>i. 0) (replicate 32 7) [1, 2, 3] []))
       = [1, 2, 3] @ replicate 16 42
   \<and> length (snd (encrypt toy_sodium of_nat (\<lambda>i. 0) (replicate 32 7) [1, 2, 3] [])) = 35"
  using encrypt_ciphertext_layout [OF toy_sodium_correct toy_npub,
      of "[1, 2, 3]" of_nat "\<lambda>i. 0" "replicate 32 7" "[]"]
    toy_sodium_correct toy_npub
  by (simp add: unat_consts toy_sodium_def)

subsection \<open>The output argument of a failed decryption\<close>

text \<open>
  C10: whenever \<open>decrypt\<close> throws, for an input of at most \<open>NONCE_SIZE + TAG_SIZE\<close> bytes
  or for a failed tag verification, the caller's string \<open>out\<close> keeps its value.
\<close>

theorem decrypt_atomic:
  "fst (decrypt S k inp out) = Some e \<Longrightarrow> snd (decrypt S k inp out) = out"
  by (auto simp add: decrypt_def Let_def split: prod.splits option.splits if_splits)

theorem decrypt_atomic_witness:
  "fst (decrypt toy_sodium (replicate 32 7) (replicate 32 0) [9]) = Some invalid_argument
   \<and> snd (decrypt toy_sodium (replicate 32 7) (replicate 32 0) [9]) = [9]
   \<and> fst (decrypt toy_sodium (replicate 32 7) (replicate 33 0) [9]) = Some runtime_error
   \<and> snd (decrypt toy_sodium (replicate 32 7) (replicate 33 0) [9]) = [9]"
proof -
  have a: "fst (decrypt toy_sodium (replicate 32 7) (replicate 32 0) [9]) = Some invalid_argument"
    by code_simp
  have b: "fst (decrypt toy_sodium (replicate 32 7) (replicate 33 0) [9]) = Some runtime_error"
    by code_simp
  show ?thesis
    using a b decrypt_atomic [OF a] decrypt_atomic [OF b] by simp
qed

section \<open>Properties of the PRF\<close>

subsection \<open>Output lengths for which the loop does not terminate\<close>

text \<open>
  \<open>pos\<close> is a \<open>uint16_t\<close>: \<open>pos += kDigestSize\<close> wraps around at \<open>2^16\<close>. With an even
  digest size \<open>pos\<close> stays even, so it never reaches 65535 and \<open>pos < NBYTES\<close> holds
  forever when \<open>NBYTES = 65535\<close>.
\<close>

lemma prf_loop_diverges_aux:
  assumes "prf_loop h d N len tmp pos i r = Some y"
  shows "\<not> (even d \<and> N = 65535 \<and> even (unat pos))"
proof (rule prf_loop.raw_induct
    [where P = "\<lambda>h d N len tmp pos i r y. \<not> (even d \<and> N = 65535 \<and> even (unat pos))",
      OF _ assms], goal_cases)
  case (1 f h d N len tmp pos i r y)
  show ?case
  proof
    assume a: "even d \<and> N = 65535 \<and> even (unat pos)"
    then have "unat pos \<noteq> 65535" by auto
    moreover have "unat pos < 65536" using unsigned_less [of pos, where ?'a = nat] by simp
    ultimately have lt: "pos < N"
      using a by (simp add: word_less_nat_alt)
    have "even (unat (pos + of_nat d))"
      using a by (simp add: unat_word_ariths unat_of_nat dvd_mod_iff)
    with a lt 1 show False
      by (auto simp add: Let_def split: if_splits)
  qed
qed

lemma prf_loop_diverges:
  "even d \<Longrightarrow> prf_loop h d 65535 len tmp 0 0 r = None"
  using prf_loop_diverges_aux [of h d 65535 len tmp 0 0 r]
  by (cases "prf_loop h d 65535 len tmp 0 0 r") auto

text \<open>
  With a digest of 64 bytes \<open>pos\<close> stays a multiple of 64, at most 65472: the loop does
  not terminate for any \<open>NBYTES\<close> above 65472.
\<close>

lemma prf_loop_diverges_64_aux:
  assumes "prf_loop h d N len tmp pos i r = Some y"
  shows "\<not> (d = 64 \<and> 65472 < unat N \<and> 64 dvd unat pos)"
proof (rule prf_loop.raw_induct
    [where P = "\<lambda>h d N len tmp pos i r y. \<not> (d = 64 \<and> 65472 < unat N \<and> 64 dvd unat pos)",
      OF _ assms], goal_cases)
  case (1 f h d N len tmp pos i r y)
  show ?case
  proof
    assume a: "d = 64 \<and> 65472 < unat N \<and> 64 dvd unat pos"
    then obtain q where q: "unat pos = 64 * q"
      by (auto simp add: dvd_def)
    have "unat pos < 65536"
      using unsigned_less [of pos, where ?'a = nat] by simp
    then have "unat pos \<le> 65472"
      using q by simp
    then have lt: "pos < N"
      using a by (simp add: word_less_nat_alt)
    have "64 dvd unat (pos + of_nat d)"
      using a by (simp add: unat_word_ariths unat_of_nat dvd_mod_iff)
    with a lt 1 show False
      by (auto simp add: Let_def split: if_splits)
  qed
qed

lemma prf_loop_diverges_64:
  "65472 < unat N \<Longrightarrow> prf_loop h 64 N len tmp 0 0 r = None"
  using prf_loop_diverges_64_aux [of h 64 N len tmp 0 0 r]
  by (cases "prf_loop h 64 N len tmp 0 0 r") auto

lemma Prf_prf_diverges_64:
  "65472 < unat N \<Longrightarrow> Prf_prf hmac 64 key N u (Some buf) result = None"
  by (simp add: Prf_prf_def prf_loop_diverges_64)

text \<open>
  C3 (the code at the failing input): \<open>Prf<65535>::prf\<close> over a digest of 64 bytes, for
  any key, any non-null input and any keyed hash, does not return: after the block at
  \<open>pos = 65472\<close> the addition \<open>pos += 64\<close> wraps around to 0. The claim says that it
  returns 65535 bytes.
\<close>

theorem Prf_prf_65535_never_returns:
  "Prf_prf hmac 64 key 65535 u (Some buf) result = None"
  by (simp add: Prf_prf_def prf_loop_diverges)

subsection \<open>Output lengths for which the loop is the counter-mode expansion\<close>

lemma blocks_cover:
  assumes "0 < d"
  shows "j < (n + d - 1) div d \<longleftrightarrow> j * d < (n::nat)"
proof -
  have "j < (n + d - 1) div d \<longleftrightarrow> (j + 1) * d \<le> n + d - 1"
    using assms by (simp add: less_eq_div_iff_mult_less_eq Suc_le_eq [symmetric] del: Suc_le_eq)
  also have "\<dots> \<longleftrightarrow> j * d < n"
    using assms by (cases d) auto
  finally show ?thesis .
qed

lemma unat_of_nat16:
  "n < 65536 \<Longrightarrow> unat (of_nat n :: 16 word) = n"
  by (simp add: unat_of_nat)

lemma prf_loop_blocks:
  fixes h :: "bytes \<Rightarrow> nat \<Rightarrow> bytes"
  assumes d: "0 < d" and fit: "((unat N + d - 1) div d) * d < 65536"
    and hl: "\<And>m n. n \<le> d \<Longrightarrow> length (h m n) = n"
  shows "j \<le> (unat N + d - 1) div d \<Longrightarrow> length acc = min (j * d) (unat N)
         \<Longrightarrow> length acc + length rest = unat N
         \<Longrightarrow> prf_loop h d N (length buf) (buf @ [u]) (of_nat (j * d)) (of_nat j) (acc @ rest)
             = Some (acc @ concat (map (\<lambda>j. h (buf @ [of_nat j]) (min d (unat N - j * d)))
                                     [j..<(unat N + d - 1) div d]))"
proof (induction "(unat N + d - 1) div d - j" arbitrary: j acc rest u)
  case 0
  let ?nb = "(unat N + d - 1) div d"
  from 0 have j: "j = ?nb" by simp
  then have "\<not> j * d < unat N"
    using blocks_cover [OF d, of j "unat N"] by simp
  then have ge: "unat N \<le> j * d" by simp
  have "unat (of_nat (j * d) :: 16 word) = j * d"
    using fit j by (intro unat_of_nat16) simp
  then have "\<not> (of_nat (j * d) :: 16 word) < N"
    using ge by (simp add: word_less_nat_alt)
  moreover have "rest = []"
    using 0(3,4) ge by simp
  ultimately show ?case
    using j by (subst prf_loop.simps) simp
next
  case (Suc k)
  let ?nb = "(unat N + d - 1) div d"
  let ?b = "h (buf @ [of_nat j]) (min d (unat N - j * d))"
  from Suc have j: "j < ?nb" by simp
  then have lt: "j * d < unat N"
    using blocks_cover [OF d, of j "unat N"] by simp
  have "j * d \<le> ?nb * d"
    using j by (intro mult_le_mono1) simp
  with fit have "j * d < 65536"
    by (rule le_less_trans [rotated])
  then have up: "unat (of_nat (j * d) :: 16 word) = j * d"
    by (rule unat_of_nat16)
  then have cond: "(of_nat (j * d) :: 16 word) < N"
    using lt by (simp add: word_less_nat_alt)
  have la: "length acc = j * d"
    using Suc.prems(2) lt by simp
  have lb: "length ?b = min d (unat N - j * d)"
    by (rule hl) simp
  have lr: "length ?b \<le> length rest"
    using Suc.prems(3) la lb by simp
  have w: "write_at (acc @ rest) (j * d) ?b = (acc @ ?b) @ drop (length ?b) rest"
    by (simp add: write_at_def la)
  have n: "(if d \<le> unat N - j * d
            then write_at (acc @ rest) (j * d) (h (buf @ [of_nat j]) d)
            else write_at (acc @ rest) (j * d) (h (buf @ [of_nat j]) (unat N - j * d)))
           = (acc @ ?b) @ drop (length ?b) rest"
    using w by (cases "d \<le> unat N - j * d") (simp_all add: min_def)
  have IH: "prf_loop h d N (length buf) (buf @ [of_nat j]) (of_nat (Suc j * d)) (of_nat (Suc j))
              ((acc @ ?b) @ drop (length ?b) rest)
            = Some ((acc @ ?b) @ concat (map (\<lambda>j. h (buf @ [of_nat j]) (min d (unat N - j * d)))
                                     [Suc j..<?nb]))"
  proof (rule Suc.hyps(1))
    show "k = ?nb - Suc j" using Suc.hyps(2) by simp
    show "Suc j \<le> ?nb" using j by simp
    show "length (acc @ ?b) = min (Suc j * d) (unat N)"
      using la lb lt by (auto simp add: min_def)
    show "length (acc @ ?b) + length (drop (length ?b) rest) = unat N"
      using Suc.prems(3) lr by simp
  qed
  have step: "(of_nat (j * d) :: 16 word) + of_nat d = of_nat (Suc j * d)"
    by (simp add: add.commute)
  have cnt: "(of_nat j :: 8 word) + 1 = of_nat (Suc j)"
    by simp
  have "prf_loop h d N (length buf) (buf @ [u]) (of_nat (j * d)) (of_nat j) (acc @ rest)
        = prf_loop h d N (length buf) (buf @ [of_nat j]) (of_nat (Suc j * d)) (of_nat (Suc j))
              ((acc @ ?b) @ drop (length ?b) rest)"
    by (subst prf_loop.simps)
      (simp only: cond if_True Let_def up step cnt,
       simp only: n list_update_length take_all_iff length_append length_Cons list.size
         le_refl take_all)
  also note IH
  finally show ?case
    using j by (simp add: upt_conv_Cons)
qed

text \<open>
  When the last value of \<open>pos\<close>, the output length rounded up to whole digests, is below
  \<open>2^16\<close> (with a digest of 64 bytes: \<open>NBYTES \<le> 65472\<close>), the call returns the
  counter-mode expansion, which has exactly \<open>NBYTES\<close> bytes. The counter byte is the
  block number modulo 256.
\<close>

lemma Prf_prf_counter_mode:
  assumes "0 < d" and "d < unat N" and "((unat N + d - 1) div d) * d < 65536"
    and "\<And>m n. n \<le> d \<Longrightarrow> length (hmac key m n) = n"
    and "length result = unat N"
  shows "Prf_prf hmac d key N u (Some buf) result
         = Some (Inr (prf_counter_mode (hmac key) d (unat N) buf))"
  using prf_loop_blocks [of d N "hmac key" 0 "[]" result buf u, OF assms(1,3,4)] assms(2,5)
  by (simp add: Prf_prf_def prf_counter_mode_def)

lemma length_prf_counter_mode_prefix:
  fixes h :: "bytes \<Rightarrow> nat \<Rightarrow> bytes"
  assumes "0 < d" and "\<And>m n. n \<le> d \<Longrightarrow> length (h m n) = n"
  shows "j \<le> (n + d - 1) div d \<Longrightarrow>
         length (concat (map (\<lambda>j. h (buf @ [of_nat j :: byte]) (min d (n - j * d))) [0..<j]))
         = min (j * d) n"
proof (induction j)
  case 0
  then show ?case by simp
next
  case (Suc j)
  then have "j < (n + d - 1) div d" by simp
  then have "j * d < n"
    using blocks_cover [OF assms(1), of j n] by simp
  then show ?case
    using Suc assms(2) [of "min d (n - j * d)"] by (auto simp add: min_def)
qed

lemma length_prf_counter_mode:
  fixes h :: "bytes \<Rightarrow> nat \<Rightarrow> bytes"
  assumes "0 < d" and "\<And>m n. n \<le> d \<Longrightarrow> length (h m n) = n"
  shows "length (prf_counter_mode h d n buf) = n"
proof -
  have "\<not> ((n + d - 1) div d) * d < n"
    using blocks_cover [OF assms(1), of "(n + d - 1) div d" n] by simp
  then show ?thesis
    using length_prf_counter_mode_prefix
      [where h = h and d = d and j = "(n + d - 1) div d" and n = n and buf = buf, OF assms]
    by (simp add: prf_counter_mode_def min_def)
qed

text \<open>
  The counter \<open>i\<close> is a \<open>uint8_t\<close>: block \<open>j + 256\<close> is hashed over the same message as
  block \<open>j\<close>. With a digest of 64 bytes this happens from \<open>NBYTES = 16385\<close> on.
\<close>

lemma counter_byte_wraps:
  "buf @ [of_nat (j + 256) :: byte] = buf @ [of_nat j]"
  by simp

lemma prf_counter_mode_block_repeats:
  "base_hmac (buf @ [of_nat (j + 256) :: byte]) n = base_hmac (buf @ [of_nat j]) n"
  by (simp only: counter_byte_wraps)

lemma toy_Prf_prf_value:
  "Prf_prf toy_hmac 4 [] 10 0 (Some [7]) (replicate 10 0)
   = Some (Inr [1, 1, 1, 1, 2, 2, 2, 2, 3, 3])"
  by code_simp

subsection \<open>The older header\<close>

text \<open>
  For an output longer than a digest the older header computes nothing: the assertion
  fails, or without assertions the array comes back as it was.
\<close>

lemma Prf_prf_legacy_no_expansion:
  "kDigestSize < unat NBYTES \<Longrightarrow>
   Prf_prf_legacy NDEBUG hmac kDigestSize key NBYTES buf result
   = (if NDEBUG then Inr result else Inl assertion_failure)"
  by (simp add: Prf_prf_legacy_def)

section \<open>Properties of SetHash\<close>

subsection \<open>Order of additions\<close>

text \<open>
  C7: for every state \<open>h\<close> and all byte strings \<open>a\<close> and \<open>b\<close>, \<open>add_element a\<close> then
  \<open>add_element b\<close> gives a state equal under \<open>operator==\<close> to \<open>add_element b\<close> then
  \<open>add_element a\<close>.
\<close>

theorem add_element_commute:
  "SetHashImpl_eq (add_element E (add_element E h a) b) (add_element E (add_element E h b) a)"
  by (simp add: SetHashImpl_eq_def equal_state_def add_element_def add_def add.commute add.left_commute)

subsection \<open>Cancellation\<close>

text \<open>
  C8: for every state \<open>h\<close> and every byte string \<open>x\<close>, \<open>add_element x\<close> then
  \<open>remove_element x\<close> gives a state equal under \<open>operator==\<close> to \<open>h\<close>; in particular for
  the empty SetHash.
\<close>

theorem add_remove_cancel:
  "SetHashImpl_eq (remove_element E (add_element E h x) x) h
   \<and> SetHashImpl_eq (remove_element E (add_element E (SetHashImpl_new E) a) a) (SetHashImpl_new E)"
  by (simp add: SetHashImpl_eq_def equal_state_def add_element_def remove_element_def add_def remove_def)

end
